theory Spec2Isabelle
  imports Main "HOL-Library.Word" "HOL-Library.Signed_Division" "HOL-Library.AList"
begin

section \<open>Data model of cmd/process-agent/collector.go\<close>

text \<open>
  Go's \<open>int32\<close> is a 32-bit word read as two's complement (\<open>sint\<close>, \<open><s\<close>); addition on it
  wraps. A \<open>time.Duration\<close> is an \<open>int64\<close> count of nanoseconds; the only durations the
  collector computes are \<open>int32\<close> values times \<open>time.Second\<close>, which stay inside
  \<open>int64\<close> (lemma \<open>intervalDuration_int64\<close>), so durations are modelled as \<open>int\<close>.
  A point in time is its Unix second.
\<close>

type_synonym int32 = "32 word"
type_synonym Duration = int
type_synonym Time = int

definition Second :: Duration where
  "Second = 1000000000"

text \<open>\<open>model.CollectorStatus\<close>: the status record decoded from a backend response.\<close>

record CollectorStatus =
  ActiveClients :: int32
  Interval :: int32

text \<open>
  \<open>model.MessageBody\<close>: the dynamic types that the collector distinguishes in its type
  switches, with the number of containers that \<open>getContainerCount\<close> reads, and the
  content that the encoder serialises.
\<close>

datatype MessageKind =
    CollectorProc nat
  | CollectorRealTime nat
  | CollectorContainer nat
  | CollectorContainerRealTime nat
  | CollectorConnections
  | CollectorManifest
  | OtherBody

record MessageBody =
  kind :: MessageKind
  content :: string

datatype HeaderName =
    TimestampHeader
  | HostHeader
  | ProcessVersionHeader
  | ContainerCountHeader
  | ContentTypeHeader
  | ClusterIDHeader
  | EVPOriginHeader
  | EVPOriginVersionHeader
  | ContentEncodingHeader

type_synonym Header = "(HeaderName \<times> string) list"

record checkPayload =
  body :: string
  headers :: Header

record checkResult =
  name :: string
  payloads :: "checkPayload list"
  sizeInBytes :: int

definition Weight :: "checkResult \<Rightarrow> int" where
  "Weight cr = sizeInBytes cr"

definition Type :: "checkResult \<Rightarrow> string" where
  "Type cr = name cr"

text \<open>
  \<open>checks.Check\<close> and \<open>checks.CheckWithRealTime\<close>. A run is handed a group id, which
  tells the invocations apart, and returns an error or its messages. The field
  \<open>RealTime\<close> of \<open>checks.RunResult\<close> is \<open>RealTimeHalf\<close> here, \<open>RealTime\<close> being the
  method of the check.
  \<open>RunWithOptions\<close> receives the generator \<open>nextGroupID\<close>: the model hands it the
  current counter and it answers with the number of ids it drew and its result.
\<close>

record Check =
  Name :: string
  RealTime :: bool
  ShouldSaveLastRun :: bool
  Run :: "int32 \<Rightarrow> string + MessageBody list"

record RunOptions =
  RunStandard :: bool
  RunRealTime :: bool

record RunResult =
  Standard :: "MessageBody list"
  RealTimeHalf :: "MessageBody list"

record CheckWithRealTime = Check +
  RealTimeName :: string
  RunWithOptions :: "int32 \<Rightarrow> RunOptions \<Rightarrow> nat \<times> (string + RunResult)"

text \<open>The fields of \<open>config.AgentConfig\<close> that the collector reads.\<close>

record AgentConfig =
  HostName :: string
  OrchestrationCollectionEnabled :: bool
  IsManifestCollectionEnabled :: bool
  CheckInterval :: "string \<Rightarrow> Duration"

text \<open>
  The five \<open>*api.WeightedQueue\<close> fields of the collector are references; a queue is
  modelled by the sequence of items handed to its \<open>Add\<close>, in order (the eviction policy
  of \<open>api.WeightedQueue\<close> lives in another package).
\<close>

datatype QueueRef =
    processResults
  | rtProcessResults
  | eventResults
  | connectionsResults
  | podResults

text \<open>The forwarder's submit methods, and one response read from the channel they return.\<close>

datatype Sink =
    SubmitProcessChecks
  | SubmitRTProcessChecks
  | SubmitContainerChecks
  | SubmitRTContainerChecks
  | SubmitConnectionChecks
  | SubmitOrchestratorManifests
  | SubmitOrchestratorChecks
  | SubmitProcessDiscoveryChecks
  | SubmitProcessEventChecks

record Response =
  Domain :: string
  Body :: string
  StatusCode :: int
  Err :: "string option"

text \<open>A decoded response message: \<open>model.ResCollector\<close> or any other type.\<close>

datatype Message =
    ResCollector string CollectorStatus
  | OtherType int

datatype LogEvent =
    ErrUnableToRunCheck string string
  | InfoFinishedCheck string int32
  | InfoFinishedFirstFive string int32
  | InfoFinishCheck string int32
  | ErrUnableToEncode string
  | ErrUnableToSubmit string
  | ErrFromDomain string string string
  | ErrInvalidResponse string string int
  | ErrCouldNotDecode string string
  | ErrInResponse string string string
  | ErrUnexpectedType string string int
  | InfoDisablingRealTime
  | InfoEnablingRealTime int32
  | InfoIntervalUpdated Duration

text \<open>
  What the collector takes from other packages: the encoder, the decoder, \<open>strconv.Itoa\<close>,
  the agent version, the cluster id, the header constants and the names of the checks.
  They are parameters of the model. \<open>PodCheckName\<close> is \<open>config.PodCheckName\<close>,
  \<open>PodName\<close> is \<open>checks.Pod.Name()\<close>.
\<close>

record Env =
  EncodePayload :: "MessageBody \<Rightarrow> string + string"
  DecodeMessage :: "string \<Rightarrow> string + Message"
  Itoa :: "int \<Rightarrow> string"
  AgentVersionNumber :: string
  AgentVersion :: string
  GetClusterID :: "string + string"
  ProtobufContentType :: string
  ZSTDContentEncoding :: string
  ProcessName :: string
  ProcessRealTimeName :: string
  ContainerName :: string
  RTContainerName :: string
  ConnectionsName :: string
  PodName :: string
  ProcessDiscoveryName :: string
  ProcessEventsName :: string
  PodCheckName :: string

text \<open>
  The \<open>Collector\<close> struct. \<open>rtIntervalCh\<close> holds the values sent on the channel, in
  order; \<open>queues\<close> holds the items added to each queue. The fields after
  \<open>dropCheckPayloads\<close> are the process-wide state that the collector writes through
  other packages: the log, \<open>checks.StoreCheckOutput\<close>, \<open>updateLastCollectTime\<close>,
  \<open>updateProcContainerCount\<close>, the invocations of \<open>Check.Run\<close> and
  \<open>RunWithOptions\<close>, and the payloads handed to the forwarder.
\<close>

record Collector =
  realTimeEnabled :: bool
  groupID :: int32
  rtIntervalCh :: "Duration list"
  cfg :: AgentConfig
  runCounters :: "string \<rightharpoonup> int32"
  enabledChecks :: "Check list"
  realTimeInterval :: Duration
  queues :: "QueueRef \<Rightarrow> checkResult list"
  forwarderRetryQueueMaxBytes :: int
  runRealTime :: bool
  dropCheckPayloads :: "string list"
  logs :: "LogEvent list"
  checkOutputs :: "string \<rightharpoonup> MessageBody list"
  lastCollectTime :: Time
  procContainerCount :: "MessageBody list"
  invocations :: "(string \<times> int32) list"
  submitted :: "(Sink \<times> checkPayload) list"

definition logf :: "LogEvent \<Rightarrow> Collector \<Rightarrow> Collector" where
  "logf e l = l\<lparr>logs := logs l @ [e]\<rparr>"

section \<open>Construction\<close>

text \<open>
  \<open>NewCollectorWithChecks\<close>. The configured queue bytes (after the fallback to the
  default), the random first group id and the configured drop list are arguments; the
  queue sizes only bound the queues and do not appear.
\<close>

definition NewCollectorWithChecks ::
  "AgentConfig \<Rightarrow> Check list \<Rightarrow> bool \<Rightarrow> int \<Rightarrow> int32 \<Rightarrow> string list \<Rightarrow> Collector" where
  "NewCollectorWithChecks c chks runRT queueBytes rnd dropList =
     \<lparr> realTimeEnabled = False,
       groupID = rnd,
       rtIntervalCh = [],
       cfg = c,
       runCounters = Map.empty,
       enabledChecks = chks,
       realTimeInterval = 2 * Second,
       queues = (\<lambda>q. []),
       forwarderRetryQueueMaxBytes = queueBytes,
       runRealTime = runRT,
       dropCheckPayloads = dropList,
       logs = [],
       checkOutputs = Map.empty,
       lastCollectTime = 0,
       procContainerCount = [],
       invocations = [],
       submitted = [] \<rparr>"

section \<open>The real-time controller\<close>

definition intervalDuration :: "CollectorStatus \<Rightarrow> Duration" where
  "intervalDuration s = sint (Interval s) * Second"

text \<open>The loop of \<open>updateRTStatus\<close> over the statuses, on its three local variables.\<close>

fun statusLoop ::
  "CollectorStatus list \<Rightarrow> bool \<times> Duration \<times> int32 \<Rightarrow> bool \<times> Duration \<times> int32" where
  "statusLoop [] acc = acc"
| "statusLoop (s # ss) (shouldEnableRT, maxInterval, activeClients) =
     (let shouldEnableRT' = (shouldEnableRT \<or> 0 <s ActiveClients s);
          activeClients' = (if 0 <s ActiveClients s then activeClients + ActiveClients s
                            else activeClients);
          interval = intervalDuration s;
          maxInterval' = (if interval > maxInterval then interval else maxInterval)
      in statusLoop ss (shouldEnableRT', maxInterval', activeClients'))"

text \<open>
  \<open>updateRTStatus\<close>. Each send on \<open>rtIntervalCh\<close> is recorded; who receives it is
  decided by the Go runtime and is not part of this sequential model.
\<close>

definition updateRTStatus :: "Collector \<Rightarrow> CollectorStatus list \<Rightarrow> Collector" where
  "updateRTStatus l statuses =
     (let curEnabled = realTimeEnabled l;
          (shouldEnableRT, maxInterval, activeClients) = statusLoop statuses (False, 0, 0);
          l1 = (if curEnabled \<and> \<not> shouldEnableRT
                  then (logf InfoDisablingRealTime l)\<lparr>realTimeEnabled := False\<rparr>
                else if \<not> curEnabled \<and> shouldEnableRT
                  then (logf (InfoEnablingRealTime activeClients) l)\<lparr>realTimeEnabled := True\<rparr>
                else l)
      in if maxInterval \<noteq> realTimeInterval l1 then
           (let l2 = l1\<lparr>realTimeInterval := maxInterval\<rparr>;
                l3 = (if realTimeInterval l2 \<le> 0 then l2\<lparr>realTimeInterval := 2 * Second\<rparr>
                      else l2);
                l4 = l3\<lparr>rtIntervalCh := rtIntervalCh l3 @
                        replicate (length (enabledChecks l3)) (realTimeInterval l3)\<rparr>
            in logf (InfoIntervalUpdated (realTimeInterval l4)) l4)
         else l1)"

text \<open>The maximum interval of a batch, as the specification words it.\<close>

definition batchMaxInterval :: "CollectorStatus list \<Rightarrow> Duration" where
  "batchMaxInterval statuses = Max (set (map intervalDuration statuses))"

section \<open>Running a check\<close>

definition nextRunCounter :: "string \<Rightarrow> Collector \<Rightarrow> int32 \<times> Collector" where
  "nextRunCounter nm l =
     (let runCounter = (case runCounters l nm of Some rc \<Rightarrow> rc + 1 | None \<Rightarrow> 1)
      in (runCounter, l\<lparr>runCounters := (runCounters l)(nm \<mapsto> runCounter)\<rparr>))"

text \<open>
  \<open>logCheckDuration\<close>. The duration \<open>time.Since(start)\<close> only appears in the text of the
  message, so \<open>start\<close> is not an argument. Go's \<open>%\<close> truncates towards zero: \<open>smod\<close>.
\<close>

definition logCheckDuration :: "string \<Rightarrow> int32 \<Rightarrow> Collector \<Rightarrow> Collector" where
  "logCheckDuration nm runCounter l =
     (if runCounter <s 5 then logf (InfoFinishedCheck nm runCounter) l
      else if runCounter = 5 then logf (InfoFinishedFirstFive nm runCounter) l
      else if sint runCounter smod 20 = 0 then logf (InfoFinishCheck nm runCounter) l
      else l)"

definition nextGroupID :: "Collector \<Rightarrow> int32 \<times> Collector" where
  "nextGroupID l = (groupID l + 1, l\<lparr>groupID := groupID l + 1\<rparr>)"

definition StoreCheckOutput :: "string \<Rightarrow> MessageBody list \<Rightarrow> Collector \<Rightarrow> Collector" where
  "StoreCheckOutput nm messages l = l\<lparr>checkOutputs := (checkOutputs l)(nm \<mapsto> messages)\<rparr>"

fun getContainerCount :: "MessageBody \<Rightarrow> int" where
  "getContainerCount mb =
     (case kind mb of
        CollectorProc n \<Rightarrow> int n
      | CollectorRealTime n \<Rightarrow> int n
      | CollectorContainer n \<Rightarrow> int n
      | CollectorContainerRealTime n \<Rightarrow> int n
      | CollectorConnections \<Rightarrow> 0
      | _ \<Rightarrow> 0)"

text \<open>\<open>http.Header\<close>: \<open>Set\<close> replaces the value of a key, \<open>Get\<close> of an absent key is empty.\<close>

definition hset :: "HeaderName \<Rightarrow> string \<Rightarrow> Header \<Rightarrow> Header" where
  "hset k v h = AList.update k v h"

definition hget :: "Header \<Rightarrow> HeaderName \<Rightarrow> string" where
  "hget h k = (case map_of h k of Some v \<Rightarrow> v | None \<Rightarrow> [])"

text \<open>The headers that the loop of \<open>messagesToResults\<close> builds for one message.\<close>

definition extraHeaders :: "Env \<Rightarrow> AgentConfig \<Rightarrow> Time \<Rightarrow> string \<Rightarrow> MessageBody \<Rightarrow> Header" where
  "extraHeaders E c start nm m =
     (let h0 = hset ContentTypeHeader (ProtobufContentType E)
                (hset ContainerCountHeader (Itoa E (getContainerCount m))
                 (hset ProcessVersionHeader (AgentVersionNumber E)
                  (hset HostHeader (HostName c)
                   (hset TimestampHeader (Itoa E start) []))));
          h1 = (if OrchestrationCollectionEnabled c then
                  (let a = (case GetClusterID E of
                              Inr cid \<Rightarrow> if cid \<noteq> [] then hset ClusterIDHeader cid h0 else h0
                            | Inl err \<Rightarrow> h0);
                       b = hset EVPOriginVersionHeader (AgentVersion E)
                            (hset EVPOriginHeader ''process-agent'' a)
                   in (case kind m of
                         CollectorManifest \<Rightarrow> hset ContentEncodingHeader (ZSTDContentEncoding E) b
                       | _ \<Rightarrow> b))
                else h0)
      in if nm = ProcessEventsName E
         then hset EVPOriginVersionHeader (AgentVersion E)
               (hset EVPOriginHeader ''process-agent'' h1)
         else h1)"

text \<open>
  The loop of \<open>messagesToResults\<close>: the payloads, their size and the errors it logs.
  A message that does not encode is skipped.
\<close>

fun encodeMessages ::
  "Env \<Rightarrow> AgentConfig \<Rightarrow> Time \<Rightarrow> string \<Rightarrow> MessageBody list \<Rightarrow>
   checkPayload list \<times> int \<times> LogEvent list \<Rightarrow> checkPayload list \<times> int \<times> LogEvent list" where
  "encodeMessages E c start nm [] acc = acc"
| "encodeMessages E c start nm (m # ms) (ps, sz, errs) =
     (case EncodePayload E m of
        Inl err \<Rightarrow> encodeMessages E c start nm ms (ps, sz, errs @ [ErrUnableToEncode err])
      | Inr b \<Rightarrow>
          encodeMessages E c start nm ms
            (ps @ [\<lparr>body = b, headers = extraHeaders E c start nm m\<rparr>],
             sz + int (length b), errs))"

definition messagesToResults ::
  "Env \<Rightarrow> Time \<Rightarrow> string \<Rightarrow> MessageBody list \<Rightarrow> QueueRef \<Rightarrow> Collector \<Rightarrow> Collector" where
  "messagesToResults E start nm messages results l =
     (if length messages = 0 then l
      else
        (let (ps, sz, errs) = encodeMessages E (cfg l) start nm messages ([], 0, []);
             result = \<lparr>name = nm, payloads = ps, sizeInBytes = sz\<rparr>
         in l\<lparr>logs := logs l @ errs,
              queues := (queues l)(results := queues l results @ [result]),
              procContainerCount := messages\<rparr>))"

definition handlePodChecks ::
  "Env \<Rightarrow> Collector \<Rightarrow> Time \<Rightarrow> string \<Rightarrow> MessageBody list \<Rightarrow> QueueRef \<Rightarrow> Collector" where
  "handlePodChecks E l start nm messages results =
     (let l1 = messagesToResults E start nm (take (length messages div 2) messages) results l
      in if IsManifestCollectionEnabled (cfg l1)
         then messagesToResults E start nm (drop (length messages div 2) messages) results l1
         else l1)"

definition runCheck ::
  "Env \<Rightarrow> 'a Check_scheme \<Rightarrow> QueueRef \<Rightarrow> Time \<Rightarrow> Collector \<Rightarrow> Collector" where
  "runCheck E c results start l =
     (let (runCounter, l1) = nextRunCounter (Name c) l;
          l2 = l1\<lparr>lastCollectTime := start\<rparr>;
          (gid, l3) = nextGroupID l2;
          l4 = l3\<lparr>invocations := invocations l3 @ [(Name c, gid)]\<rparr>
      in case Run c gid of
           Inl err \<Rightarrow> logf (ErrUnableToRunCheck (Name c) err) l4
         | Inr messages \<Rightarrow>
             (let l5 = (if ShouldSaveLastRun c then StoreCheckOutput (Name c) messages l4
                        else StoreCheckOutput (Name c) [] l4);
                  l6 = (if Name c = PodCheckName E
                        then handlePodChecks E l5 start (Name c) messages results
                        else messagesToResults E start (Name c) messages results l5)
              in if \<not> RealTime c then logCheckDuration (Name c) runCounter l6 else l6))"

definition runCheckWithRealTime ::
  "Env \<Rightarrow> CheckWithRealTime \<Rightarrow> QueueRef \<Rightarrow> QueueRef \<Rightarrow> RunOptions \<Rightarrow> Time \<Rightarrow>
   Collector \<Rightarrow> Collector" where
  "runCheckWithRealTime E c results rtResults options start l =
     (let l1 = l\<lparr>lastCollectTime := start\<rparr>;
          (drawn, res) = RunWithOptions c (groupID l1) options;
          l2 = l1\<lparr>groupID := groupID l1 + of_nat drawn,
                  invocations := invocations l1 @ [(Name c, groupID l1)]\<rparr>
      in case res of
           Inl err \<Rightarrow> logf (ErrUnableToRunCheck (Name c) err) l2
         | Inr run \<Rightarrow>
             (let l3 = messagesToResults E start (Name c) (Standard run) results l2;
                  l4 = (if RunStandard options then
                          (let (runCounter, a) = nextRunCounter (Name c) l3;
                               b = StoreCheckOutput (Name c) (Standard run) a
                           in logCheckDuration (Name c) runCounter b)
                        else l3);
                  l5 = messagesToResults E start (RealTimeName c) (RealTimeHalf run) rtResults l4
              in if RunRealTime options
                 then StoreCheckOutput (RealTimeName c) (RealTimeHalf run) l5
                 else l5))"

section \<open>The scheduler of a basic check\<close>

text \<open>
  The \<open>select\<close> of \<open>basicRunner\<close> waits for three events: the ticker fires (at a time,
  which \<open>runCheck\<close> then reads as \<open>time.Now()\<close>), a duration arrives on
  \<open>rtIntervalCh\<close>, or a receive on \<open>exit\<close> completes (\<open>ok\<close> is false once the channel
  is closed). One pass of the loop maps the ticker's period and the collector to the new
  ones; the flag says that the runner returned.
\<close>

datatype Event = Tick Time | RtInterval Duration | Exit bool

fun basicRunnerStep ::
  "Env \<Rightarrow> 'a Check_scheme \<Rightarrow> QueueRef \<Rightarrow> Event \<Rightarrow> Duration \<times> Collector \<Rightarrow>
   bool \<times> Duration \<times> Collector" where
  "basicRunnerStep E c results (Tick t) (ticker, l) =
     (let realTimeEnabled' = (runRealTime l \<and> realTimeEnabled l)
      in if \<not> RealTime c \<or> realTimeEnabled'
         then (False, ticker, runCheck E c results t l)
         else (False, ticker, l))"
| "basicRunnerStep E c results (RtInterval d) (ticker, l) =
     (if RealTime c then (False, d, l) else (False, ticker, l))"
| "basicRunnerStep E c results (Exit ok) (ticker, l) =
     (if \<not> ok then (True, ticker, l) else (False, ticker, l))"

fun basicRunnerLoop ::
  "Env \<Rightarrow> 'a Check_scheme \<Rightarrow> QueueRef \<Rightarrow> Event list \<Rightarrow> Duration \<times> Collector \<Rightarrow>
   bool \<times> Duration \<times> Collector" where
  "basicRunnerLoop E c results [] (ticker, l) = (False, ticker, l)"
| "basicRunnerLoop E c results (e # es) (ticker, l) =
     (case basicRunnerStep E c results e (ticker, l) of
        (True, st) \<Rightarrow> (True, st)
      | (False, st) \<Rightarrow> basicRunnerLoop E c results es st)"

text \<open>\<open>basicRunner\<close>, started at a time, on the events that reach its \<open>select\<close>.\<close>

definition basicRunner ::
  "Env \<Rightarrow> 'a Check_scheme \<Rightarrow> QueueRef \<Rightarrow> Time \<Rightarrow> Event list \<Rightarrow> Collector \<Rightarrow>
   bool \<times> Duration \<times> Collector" where
  "basicRunner E c results start es l =
     (let l1 = (if \<not> RealTime c then runCheck E c results start l else l)
      in basicRunnerLoop E c results es (CheckInterval (cfg l1) (Name c), l1))"

definition isTick :: "Event \<Rightarrow> bool" where
  "isTick e = (case e of Tick t \<Rightarrow> True | _ \<Rightarrow> False)"

section \<open>The dispatcher\<close>

fun dropLoop :: "string list \<Rightarrow> string \<Rightarrow> bool" where
  "dropLoop [] check = False"
| "dropLoop (d # ds) check = (if d = check then True else dropLoop ds check)"

definition shouldDropPayload :: "Collector \<Rightarrow> string \<Rightarrow> bool" where
  "shouldDropPayload l check = dropLoop (dropCheckPayloads l) check"

definition ignoreResponseBody :: "Env \<Rightarrow> string \<Rightarrow> bool" where
  "ignoreResponseBody E checkName =
     (if checkName = PodName E \<or> checkName = ProcessEventsName E then True else False)"

text \<open>
  \<open>readResponseStatuses\<close>: the responses read from the channel until it is closed, the
  statuses kept and the errors logged. The \<open>Status\<close> of a \<open>ResCollector\<close> is a record
  here; the source holds a pointer to it.
\<close>

fun readResponseStatuses ::
  "Env \<Rightarrow> string \<Rightarrow> Response list \<Rightarrow> CollectorStatus list \<times> LogEvent list \<Rightarrow>
   CollectorStatus list \<times> LogEvent list" where
  "readResponseStatuses E checkName [] acc = acc"
| "readResponseStatuses E checkName (response # rs) (statuses, errs) =
     (case Err response of
        Some e \<Rightarrow>
          readResponseStatuses E checkName rs
            (statuses, errs @ [ErrFromDomain checkName (Domain response) e])
      | None \<Rightarrow>
          if StatusCode response \<ge> 300 then
            readResponseStatuses E checkName rs
              (statuses, errs @ [ErrInvalidResponse checkName (Domain response) (StatusCode response)])
          else if ignoreResponseBody E checkName then
            readResponseStatuses E checkName rs (statuses, errs)
          else
            (case DecodeMessage E (Body response) of
               Inl err \<Rightarrow>
                 readResponseStatuses E checkName rs
                   (statuses, errs @ [ErrCouldNotDecode checkName err])
             | Inr (ResCollector msg status) \<Rightarrow>
                 if length msg > 0 then
                   readResponseStatuses E checkName rs
                     (statuses, errs @ [ErrInResponse checkName (Domain response) msg])
                 else readResponseStatuses E checkName rs (statuses @ [status], errs)
             | Inr (OtherType t) \<Rightarrow>
                 readResponseStatuses E checkName rs
                   (statuses, errs @ [ErrUnexpectedType checkName (Domain response) t])))"

text \<open>
  The forwarder is outside the collector: a submission answers with an error or with the
  responses of the domains. It may answer differently each time, so it also receives the
  number of submissions made before.
\<close>

type_synonym Forwarder = "nat \<Rightarrow> Sink \<Rightarrow> checkPayload \<Rightarrow> string + Response list"

text \<open>
  The \<open>switch\<close> of \<open>consumePayloads\<close> on the name of the result: the sink to submit to, or
  the error of the default case, and the new value of the local \<open>updateRTStatus\<close>.
  The cases are tried in the order of the source.
\<close>

definition selectSink :: "Env \<Rightarrow> string \<Rightarrow> checkPayload \<Rightarrow> bool \<Rightarrow> (string + Sink) \<times> bool" where
  "selectSink E nm payload update =
     (if nm = ProcessName E then (Inr SubmitProcessChecks, update)
      else if nm = ProcessRealTimeName E then (Inr SubmitRTProcessChecks, update)
      else if nm = ContainerName E then (Inr SubmitContainerChecks, update)
      else if nm = RTContainerName E then (Inr SubmitRTContainerChecks, update)
      else if nm = ConnectionsName E then (Inr SubmitConnectionChecks, update)
      else if nm = PodName E then
        (if hget (headers payload) ContentEncodingHeader = ZSTDContentEncoding E
         then (Inr SubmitOrchestratorManifests, False)
         else (Inr SubmitOrchestratorChecks, False))
      else if nm = ProcessDiscoveryName E then (Inr SubmitProcessDiscoveryChecks, False)
      else if nm = ProcessEventsName E then (Inr SubmitProcessEventChecks, False)
      else (Inl (''unsupported payload type: '' @ nm), update))"

text \<open>The body of the inner loop of \<open>consumePayloads\<close>, for one payload of a result.\<close>

definition consumePayload ::
  "Env \<Rightarrow> Forwarder \<Rightarrow> checkResult \<Rightarrow> checkPayload \<Rightarrow> Collector \<Rightarrow> Collector" where
  "consumePayload E fwd result payload l =
     (if shouldDropPayload l (name result) then l
      else
        (let (route, update) = selectSink E (name result) payload (runRealTime l)
         in case route of
              Inl err \<Rightarrow> logf (ErrUnableToSubmit err) l
            | Inr sink \<Rightarrow>
                (let l1 = l\<lparr>submitted := submitted l @ [(sink, payload)]\<rparr>
                 in case fwd (length (submitted l)) sink payload of
                      Inl err \<Rightarrow> logf (ErrUnableToSubmit err) l1
                    | Inr responses \<Rightarrow>
                        (let (statuses, errs) =
                               readResponseStatuses E (name result) responses ([], []);
                             l2 = l1\<lparr>logs := logs l1 @ errs\<rparr>
                         in if length statuses > 0
                            then (if update then updateRTStatus l2 statuses else l2)
                            else l2))))"

fun consumeResult ::
  "Env \<Rightarrow> Forwarder \<Rightarrow> checkResult \<Rightarrow> checkPayload list \<Rightarrow> Collector \<Rightarrow> Collector" where
  "consumeResult E fwd result [] l = l"
| "consumeResult E fwd result (payload # ps) l =
     consumeResult E fwd result ps (consumePayload E fwd result payload l)"

text \<open>
  \<open>consumePayloads\<close>, on the items that \<open>Poll\<close> returns before the queue is stopped.
\<close>

fun consumePayloads :: "Env \<Rightarrow> Forwarder \<Rightarrow> checkResult list \<Rightarrow> Collector \<Rightarrow> Collector" where
  "consumePayloads E fwd [] l = l"
| "consumePayloads E fwd (result # items) l =
     consumePayloads E fwd items (consumeResult E fwd result (payloads result) l)"

definition checkNames :: "Env \<Rightarrow> string list" where
  "checkNames E =
     [ProcessName E, ProcessRealTimeName E, ContainerName E, RTContainerName E,
      ConnectionsName E, PodName E, ProcessDiscoveryName E, ProcessEventsName E]"

text \<open>The bodies of the messages of a list that encode, in order.\<close>

definition encodedBodies :: "Env \<Rightarrow> MessageBody list \<Rightarrow> string list" where
  "encodedBodies E ms =
     concat (map (\<lambda>m. case EncodePayload E m of Inl err \<Rightarrow> [] | Inr b \<Rightarrow> [b]) ms)"

text \<open>
  What a queue holds, as seen by a reader: for each result its name and the bodies of its
  payloads. \<open>halfResults\<close> is what one call of \<open>messagesToResults\<close> is expected to
  add: nothing for an empty list of messages, otherwise one result.
\<close>

definition queueView :: "checkResult list \<Rightarrow> (string \<times> string list) list" where
  "queueView rs = map (\<lambda>r. (name r, map body (payloads r))) rs"

definition halfResults :: "Env \<Rightarrow> string \<Rightarrow> MessageBody list \<Rightarrow> (string \<times> string list) list" where
  "halfResults E nm ms = (if ms = [] then [] else [(nm, encodedBodies E ms)])"

text \<open>The real-time state: the flag, the stored interval and the sends on the channel.\<close>

definition rtState :: "Collector \<Rightarrow> bool \<times> Duration \<times> Duration list" where
  "rtState l = (realTimeEnabled l, realTimeInterval l, rtIntervalCh l)"

text \<open>
  The check-duration events of the log, each by the run counter it reports, in order.
  \<open>cadence\<close> is the event that \<open>logCheckDuration\<close> writes for a counter, if any, and
  \<open>counterValue\<close> the run counter stored for a name (0 before the first run).
\<close>

fun eventRun :: "LogEvent \<Rightarrow> int32 list" where
  "eventRun (InfoFinishedCheck nm n) = [n]"
| "eventRun (InfoFinishedFirstFive nm n) = [n]"
| "eventRun (InfoFinishCheck nm n) = [n]"
| "eventRun e = []"

definition durationRuns :: "Collector \<Rightarrow> int32 list" where
  "durationRuns l = concat (map eventRun (logs l))"

definition cadence :: "int32 \<Rightarrow> int32 list" where
  "cadence n = (if n <s 5 \<or> n = 5 \<or> sint n smod 20 = 0 then [n] else [])"

definition counterValue :: "Collector \<Rightarrow> string \<Rightarrow> int32" where
  "counterValue l nm = (case runCounters l nm of None \<Rightarrow> 0 | Some rc \<Rightarrow> rc)"

section \<open>A concrete environment\<close>

definition env0 :: Env where
  "env0 =
     \<lparr> EncodePayload = (\<lambda>m. if content m = [] then Inl ''empty'' else Inr (content m)),
       DecodeMessage = (\<lambda>b. if b = ''rt''
                            then Inr (ResCollector [] \<lparr>ActiveClients = 3, Interval = 10\<rparr>)
                            else Inl ''bad body''),
       Itoa = (\<lambda>i. if i = 0 then ''0'' else ''n''),
       AgentVersionNumber = ''7.40.0'',
       AgentVersion = ''7.40.0'',
       GetClusterID = Inl ''no cluster'',
       ProtobufContentType = ''application/x-protobuf'',
       ZSTDContentEncoding = ''zstd'',
       ProcessName = ''process'',
       ProcessRealTimeName = ''rtprocess'',
       ContainerName = ''container'',
       RTContainerName = ''rtcontainer'',
       ConnectionsName = ''connections'',
       PodName = ''pod'',
       ProcessDiscoveryName = ''process_discovery'',
       ProcessEventsName = ''process_events'',
       PodCheckName = ''pod'' \<rparr>"

definition cfg0 :: AgentConfig where
  "cfg0 = \<lparr> HostName = ''host'', OrchestrationCollectionEnabled = False,
            IsManifestCollectionEnabled = False, CheckInterval = (\<lambda>n. 10 * Second) \<rparr>"

definition collector0 :: Collector where
  "collector0 = NewCollectorWithChecks cfg0 [] True 1000 7 []"

definition msg :: "string \<Rightarrow> MessageBody" where
  "msg s = \<lparr>kind = OtherBody, content = s\<rparr>"

definition check0 :: "string \<Rightarrow> (int32 \<Rightarrow> string + MessageBody list) \<Rightarrow> Check" where
  "check0 nm r = \<lparr>Name = nm, RealTime = False, ShouldSaveLastRun = True, Run = r\<rparr>"

definition rtCheck0 :: CheckWithRealTime where
  "rtCheck0 =
     \<lparr> Name = ''process'', RealTime = False, ShouldSaveLastRun = True,
       Run = (\<lambda>g. Inr [msg ''a'']),
       RealTimeName = ''rtprocess'',
       RunWithOptions = (\<lambda>g opts. (1, Inr \<lparr>Standard = [msg ''a''], RealTimeHalf = [msg ''b'']\<rparr>)) \<rparr>"

definition fwd0 :: Forwarder where
  "fwd0 n sink payload = Inr [\<lparr>Domain = ''d'', Body = ''rt'', StatusCode = 200, Err = None\<rparr>]"

definition podResult0 :: checkResult where
  "podResult0 = \<lparr>name = ''pod'', payloads = [\<lparr>body = ''x'', headers = []\<rparr>], sizeInBytes = 1\<rparr>"

definition processResult0 :: checkResult where
  "processResult0 =
     \<lparr>name = ''process'', payloads = [\<lparr>body = ''x'', headers = []\<rparr>], sizeInBytes = 1\<rparr>"

definition podCheck0 :: Check where
  "podCheck0 = check0 ''pod'' (\<lambda>g. Inr [msg ''a'', msg ''b'', msg ''c''])"

definition failingCheck0 :: Check where
  "failingCheck0 = check0 ''process'' (\<lambda>g. Inl ''boom'')"

definition okCheck0 :: Check where
  "okCheck0 = check0 ''process'' (\<lambda>g. Inr [])"

definition bothOptions :: RunOptions where
  "bothOptions = \<lparr>RunStandard = True, RunRealTime = True\<rparr>"

definition rtOnlyOptions :: RunOptions where
  "rtOnlyOptions = \<lparr>RunStandard = False, RunRealTime = True\<rparr>"

section \<open>Properties of the real-time controller\<close>

lemma intervalDuration_int64:
  "- (2 ^ 63) \<le> intervalDuration s \<and> intervalDuration s < 2 ^ 63"
proof -
  have "- (2 ^ 31) \<le> sint (Interval s)" "sint (Interval s) < 2 ^ 31"
    using sint_ge [of "Interval s"] sint_lt [of "Interval s"] by simp_all
  then show ?thesis
    by (simp add: intervalDuration_def Second_def)
qed

lemma statusLoop_enable:
  "fst (statusLoop ss (b, m, a)) \<longleftrightarrow> b \<or> (\<exists>s\<in>set ss. 0 <s ActiveClients s)"
  by (induction ss arbitrary: b m a) (auto simp: Let_def)

lemma statusLoop_max:
  "fst (snd (statusLoop ss (b, m, a))) = fold max (map intervalDuration ss) m"
  by (induction ss arbitrary: b m a) (auto simp: Let_def max_def)

lemma fold_max_Max:
  "xs \<noteq> [] \<Longrightarrow> fold max xs (m::int) = max m (Max (set xs))"
proof (induction xs arbitrary: m)
  case Nil
  then show ?case by simp
next
  case (Cons x xs)
  show ?case
  proof (cases "xs = []")
    case True
    then show ?thesis by (simp add: max.commute)
  next
    case False
    with Cons.IH [of "max x m"] show ?thesis
      by (simp add: max.assoc max.commute max.left_commute)
  qed
qed

lemma statusLoop_batchMax:
  "ss \<noteq> [] \<Longrightarrow> fst (snd (statusLoop ss (False, 0, 0))) = max 0 (batchMaxInterval ss)"
  by (simp add: statusLoop_max fold_max_Max batchMaxInterval_def)

lemma updateRTStatus_enabled:
  "realTimeEnabled (updateRTStatus l ss) = fst (statusLoop ss (False, 0, 0))"
  by (auto simp: updateRTStatus_def Let_def logf_def split: prod.splits)

lemma updateRTStatus_interval:
  "realTimeInterval (updateRTStatus l ss) =
     (let m = fst (snd (statusLoop ss (False, 0, 0)))
      in if m = realTimeInterval l then realTimeInterval l
         else if m \<le> 0 then 2 * Second else m)"
  by (auto simp: updateRTStatus_def Let_def logf_def split: prod.splits)

lemma updateRTStatus_sends:
  "rtIntervalCh (updateRTStatus l ss) =
     (if fst (snd (statusLoop ss (False, 0, 0))) = realTimeInterval l then rtIntervalCh l
      else rtIntervalCh l @
        replicate (length (enabledChecks l)) (realTimeInterval (updateRTStatus l ss)))"
  by (auto simp: updateRTStatus_def Let_def logf_def split: prod.splits)

lemma NewCollectorWithChecks_interval_pos:
  "0 < realTimeInterval (NewCollectorWithChecks c chks runRT qb rnd dl)"
  by (simp add: NewCollectorWithChecks_def Second_def)

lemma updateRTStatus_interval_pos:
  "0 < realTimeInterval l \<Longrightarrow> 0 < realTimeInterval (updateRTStatus l ss)"
  by (auto simp: updateRTStatus_interval Let_def Second_def)

text \<open>
  C1 (as amended). After \<open>updateRTStatus\<close> on a batch of status records, the real-time
  flag is true iff at least one record of the batch has \<open>ActiveClients > 0\<close>, and it is
  false iff every record has \<open>ActiveClients \<le> 0\<close>, whatever the flag was before.
\<close>

theorem updateRTStatus_enabled_iff:
  "(realTimeEnabled (updateRTStatus l statuses) \<longleftrightarrow>
      (\<exists>s\<in>set statuses. 0 <s ActiveClients s)) \<and>
   (\<not> realTimeEnabled (updateRTStatus l statuses) \<longleftrightarrow>
      (\<forall>s\<in>set statuses. ActiveClients s \<le>s 0))"
  by (auto simp: updateRTStatus_enabled statusLoop_enable word_sless_alt word_sle_eq)

theorem updateRTStatus_enabled_iff_witness:
  "realTimeEnabled (updateRTStatus collector0
      [\<lparr>ActiveClients = 0, Interval = 5\<rparr>, \<lparr>ActiveClients = 3, Interval = 10\<rparr>]) \<and>
   \<not> realTimeEnabled (updateRTStatus (collector0\<lparr>realTimeEnabled := True\<rparr>)
      [\<lparr>ActiveClients = 0, Interval = 5\<rparr>])"
  using updateRTStatus_enabled_iff [of collector0
      "[\<lparr>ActiveClients = 0, Interval = 5\<rparr>, \<lparr>ActiveClients = 3, Interval = 10\<rparr>]"]
    updateRTStatus_enabled_iff [of "collector0\<lparr>realTimeEnabled := True\<rparr>"
      "[\<lparr>ActiveClients = 0, Interval = 5\<rparr>]"]
  by (simp add: word_sless_alt word_sle_eq)

text \<open>
  C1 as it is worded fails on a record with a negative count: with the flag set and the
  batch of the one record \<open>ActiveClients = -1\<close>, the flag becomes false although not
  every record has \<open>ActiveClients = 0\<close>.
\<close>

theorem updateRTStatus_disabled_counterexample:
  "\<not> realTimeEnabled (updateRTStatus (collector0\<lparr>realTimeEnabled := True\<rparr>)
        [\<lparr>ActiveClients = - 1, Interval = 0\<rparr>]) \<and>
   ActiveClients \<lparr>ActiveClients = - 1, Interval = 0\<rparr> \<noteq> 0"
  by (simp add: updateRTStatus_def collector0_def NewCollectorWithChecks_def logf_def
      intervalDuration_def Second_def)

text \<open>
  C2. On a collector whose stored interval is positive (as \<open>NewCollectorWithChecks\<close>
  sets it and \<open>updateRTStatus\<close> keeps it: \<open>NewCollectorWithChecks_interval_pos\<close>,
  \<open>updateRTStatus_interval_pos\<close>), after \<open>updateRTStatus\<close> on a batch the stored
  interval is the maximum interval of the batch when that maximum is positive, and 2 seconds
  when it is not (or the batch is empty); when the computed maximum equals the stored
  interval, the interval is not rewritten and nothing is sent on the channel.
\<close>

theorem updateRTStatus_interval_max:
  assumes "0 < realTimeInterval l"
  shows "(statuses \<noteq> [] \<and> 0 < batchMaxInterval statuses \<longrightarrow>
            realTimeInterval (updateRTStatus l statuses) = batchMaxInterval statuses) \<and>
         (statuses = [] \<or> batchMaxInterval statuses \<le> 0 \<longrightarrow>
            realTimeInterval (updateRTStatus l statuses) = 2 * Second) \<and>
         (statuses \<noteq> [] \<and> max 0 (batchMaxInterval statuses) = realTimeInterval l \<longrightarrow>
            realTimeInterval (updateRTStatus l statuses) = realTimeInterval l \<and>
            rtIntervalCh (updateRTStatus l statuses) = rtIntervalCh l)"
proof (cases "statuses = []")
  case True
  with assms show ?thesis
    by (simp add: updateRTStatus_interval)
next
  case False
  with assms show ?thesis
    by (auto simp: updateRTStatus_interval updateRTStatus_sends statusLoop_batchMax Let_def
        max_def Second_def)
qed

theorem updateRTStatus_interval_max_witness:
  "0 < realTimeInterval collector0 \<and>
   realTimeInterval (updateRTStatus collector0
      [\<lparr>ActiveClients = 0, Interval = 5\<rparr>, \<lparr>ActiveClients = 3, Interval = 10\<rparr>]) = 10 * Second \<and>
   realTimeInterval (updateRTStatus collector0
      [\<lparr>ActiveClients = 0, Interval = 0\<rparr>, \<lparr>ActiveClients = 3, Interval = - 4\<rparr>]) = 2 * Second \<and>
   rtIntervalCh (updateRTStatus collector0 [\<lparr>ActiveClients = 1, Interval = 2\<rparr>]) = []"
proof -
  have h: "0 < realTimeInterval collector0"
    by (simp add: collector0_def NewCollectorWithChecks_def Second_def)
  have m1: "batchMaxInterval
      [\<lparr>ActiveClients = 0, Interval = 5\<rparr>, \<lparr>ActiveClients = 3, Interval = 10\<rparr>] = 10 * Second"
    by (simp add: batchMaxInterval_def intervalDuration_def Second_def)
  have m2: "batchMaxInterval
      [\<lparr>ActiveClients = 0, Interval = 0\<rparr>, \<lparr>ActiveClients = 3, Interval = - 4\<rparr>] = 0"
    by (simp add: batchMaxInterval_def intervalDuration_def Second_def)
  have m3: "batchMaxInterval [\<lparr>ActiveClients = 1, Interval = 2\<rparr>] = realTimeInterval collector0"
    by (simp add: batchMaxInterval_def intervalDuration_def Second_def collector0_def
        NewCollectorWithChecks_def)
  have c: "rtIntervalCh collector0 = []"
    by (simp add: collector0_def NewCollectorWithChecks_def)
  show ?thesis
    using h m1 m2 m3 c
      updateRTStatus_interval_max [OF h, of
        "[\<lparr>ActiveClients = 0, Interval = 5\<rparr>, \<lparr>ActiveClients = 3, Interval = 10\<rparr>]"]
      updateRTStatus_interval_max [OF h, of
        "[\<lparr>ActiveClients = 0, Interval = 0\<rparr>, \<lparr>ActiveClients = 3, Interval = - 4\<rparr>]"]
      updateRTStatus_interval_max [OF h, of "[\<lparr>ActiveClients = 1, Interval = 2\<rparr>]"]
    by (auto simp: Second_def)
qed

section \<open>Properties of running a check\<close>

lemmas concrete_defs =
  env0_def cfg0_def collector0_def NewCollectorWithChecks_def msg_def check0_def rtCheck0_def
  fwd0_def podResult0_def processResult0_def podCheck0_def failingCheck0_def bothOptions_def
  rtOnlyOptions_def

lemma logCheckDuration_frame:
  "\<exists>es. logCheckDuration nm n l = l\<lparr>logs := logs l @ es\<rparr>"
proof (cases "n <s 5 \<or> n = 5 \<or> sint n smod 20 = 0")
  case True
  then show ?thesis by (auto simp: logCheckDuration_def logf_def)
next
  case False
  then have "logCheckDuration nm n l = l\<lparr>logs := logs l @ []\<rparr>"
    by (simp add: logCheckDuration_def)
  then show ?thesis by blast
qed

lemma messagesToResults_eq:
  "messagesToResults E start nm ms q l =
     (if ms = [] then l
      else l\<lparr>logs := logs l @ snd (snd (encodeMessages E (cfg l) start nm ms ([], 0, []))),
             queues := (queues l)(q := queues l q @
               [\<lparr>name = nm,
                 payloads = fst (encodeMessages E (cfg l) start nm ms ([], 0, [])),
                 sizeInBytes = fst (snd (encodeMessages E (cfg l) start nm ms ([], 0, [])))\<rparr>]),
             procContainerCount := ms\<rparr>)"
  by (simp add: messagesToResults_def split: prod.splits)

lemma encodeMessages_bodies:
  "map body (fst (encodeMessages E c start nm ms (ps, sz, errs))) =
     map body ps @ encodedBodies E ms"
  by (induction ms arbitrary: ps sz errs) (auto simp: encodedBodies_def split: sum.splits)

lemma messagesToResults_view:
  "queueView (queues (messagesToResults E start nm ms q l) q') =
     queueView (queues l q') @ (if q' = q then halfResults E nm ms else [])"
  by (simp add: messagesToResults_eq queueView_def halfResults_def encodeMessages_bodies)

lemma messagesToResults_cfg [simp]:
  "cfg (messagesToResults E start nm ms q l) = cfg l"
  by (simp add: messagesToResults_eq)

lemma logCheckDuration_queues [simp]:
  "queues (logCheckDuration nm n l) = queues l"
  using logCheckDuration_frame [of nm n l] by auto

lemma logCheckDuration_runCounters [simp]:
  "runCounters (logCheckDuration nm n l) = runCounters l"
  using logCheckDuration_frame [of nm n l] by auto

lemma logCheckDuration_checkOutputs [simp]:
  "checkOutputs (logCheckDuration nm n l) = checkOutputs l"
  using logCheckDuration_frame [of nm n l] by auto

lemma logCheckDuration_cfg [simp]:
  "cfg (logCheckDuration nm n l) = cfg l"
  using logCheckDuration_frame [of nm n l] by auto

lemma messagesToResults_runCounters [simp]:
  "runCounters (messagesToResults E start nm ms q l) = runCounters l"
  by (simp add: messagesToResults_eq)

lemma messagesToResults_checkOutputs [simp]:
  "checkOutputs (messagesToResults E start nm ms q l) = checkOutputs l"
  by (simp add: messagesToResults_eq)

lemma nextRunCounter_nth:
  "runCounters l nm = None \<Longrightarrow>
     fst (nextRunCounter nm (((\<lambda>x. snd (nextRunCounter nm x)) ^^ k) l)) = of_nat (Suc k)"
proof -
  assume none: "runCounters l nm = None"
  have "k > 0 \<Longrightarrow> runCounters (((\<lambda>x. snd (nextRunCounter nm x)) ^^ k) l) nm = Some (of_nat k)" for k
  proof (induction k)
    case 0
    then show ?case by simp
  next
    case (Suc k)
    then show ?case
      using none by (cases "k = 0") (auto simp: nextRunCounter_def Let_def)
  qed
  then show ?thesis
    using none by (cases "k = 0") (auto simp: nextRunCounter_def Let_def)
qed

lemma word5_iff: "(n::int32) = 5 \<longleftrightarrow> sint n = 5"
  by (simp add: word_eq_iff_signed [where 'a = int])

lemma logCheckDuration_durationRuns:
  "durationRuns (logCheckDuration nm n l) = durationRuns l @ cadence n"
  by (simp add: logCheckDuration_def logf_def durationRuns_def cadence_def)

lemma encodeMessages_no_duration:
  "concat (map eventRun (snd (snd (encodeMessages E c start nm ms (ps, sz, errs))))) =
     concat (map eventRun errs)"
  by (induction ms arbitrary: ps sz errs) (auto split: sum.splits)

lemma messagesToResults_durationRuns [simp]:
  "durationRuns (messagesToResults E start nm ms q l) = durationRuns l"
  using encodeMessages_no_duration [of E "cfg l" start nm ms "[]" 0 "[]"]
  by (simp add: messagesToResults_eq durationRuns_def)

lemma handlePodChecks_durationRuns [simp]:
  "durationRuns (handlePodChecks E l start nm ms q) = durationRuns l"
  by (simp add: handlePodChecks_def Let_def)

lemma handlePodChecks_runCounters [simp]:
  "runCounters (handlePodChecks E l start nm ms q) = runCounters l"
  by (simp add: handlePodChecks_def Let_def)

lemma runCheck_runCounters:
  "runCounters (runCheck E c results start l) =
     (runCounters l)(Name c \<mapsto> fst (nextRunCounter (Name c) l))"
  by (simp add: runCheck_def nextRunCounter_def nextGroupID_def Let_def logf_def
      StoreCheckOutput_def split: sum.splits)

lemma runCheck_durationRuns:
  "durationRuns (runCheck E c results start l) =
     durationRuns l @
     (if isl (Run c (groupID l + 1)) \<or> RealTime c then []
      else cadence (fst (nextRunCounter (Name c) l)))"
  by (simp add: runCheck_def nextRunCounter_def nextGroupID_def Let_def logf_def
      StoreCheckOutput_def logCheckDuration_durationRuns durationRuns_def [of "_\<lparr>logs := _\<rparr>"]
      split: sum.splits)
    (simp_all add: durationRuns_def)

lemma cadence_pos:
  "0 <s n \<Longrightarrow> cadence n = (if sint n \<le> 5 \<or> 20 dvd sint n then [n] else [])"
proof -
  assume "0 <s n"
  then have pos: "0 < sint n" by (simp add: word_sless_alt)
  then have sm: "sint n smod 20 = sint n mod 20"
    by (simp add: smod_mod_positive)
  have lt: "n <s 5 \<longleftrightarrow> sint n < 5" by (simp add: word_sless_alt)
  show ?thesis
    using pos by (auto simp: cadence_def sm lt word5_iff dvd_eq_mod_eq_0)
qed

lemma sint_of_nat_small:
  "k < 2 ^ 31 \<Longrightarrow> sint (of_nat k :: int32) = int k"
proof -
  assume "k < 2 ^ 31"
  then have "int k < 2 ^ 31" by (metis of_nat_less_numeral_power_cancel_iff)
  then show ?thesis
    by (simp add: signed_of_nat signed_take_bit_int_eq_self)
qed

lemma cadence_of_nat:
  assumes "0 < k" and "k < 2 ^ 31"
  shows "cadence (of_nat k) = map of_nat (filter (\<lambda>n. n \<le> 5 \<or> 20 dvd n) [k])"
proof -
  have s: "sint (of_nat k :: int32) = int k"
    using assms(2) by (rule sint_of_nat_small)
  then have "0 <s (of_nat k :: int32)"
    using assms(1) by (simp add: word_sless_alt)
  then show ?thesis
    by (simp add: cadence_pos s) presburger
qed

lemma nextRunCounter_counterValue:
  "fst (nextRunCounter nm l) = counterValue l nm + 1"
  by (simp add: nextRunCounter_def counterValue_def Let_def split: option.splits)

lemma runCheck_counterValue:
  "counterValue (runCheck E c results start l) (Name c) = counterValue l (Name c) + 1"
  by (simp add: counterValue_def [of "runCheck E c results start l"] runCheck_runCounters
      nextRunCounter_counterValue)

lemma runCheck_repeated:
  assumes std: "\<not> RealTime c" and ok: "\<forall>g. \<not> isl (Run c g)"
  shows "counterValue l (Name c) = of_nat j \<Longrightarrow> j + length ts < 2 ^ 31 \<Longrightarrow>
     durationRuns (fold (runCheck E c results) ts l) =
       durationRuns l @
       map of_nat (filter (\<lambda>n. n \<le> 5 \<or> 20 dvd n) [Suc j ..< Suc (j + length ts)])"
proof (induction ts arbitrary: l j)
  case Nil
  then show ?case by simp
next
  case (Cons t ts)
  let ?l = "runCheck E c results t l"
  have cv: "counterValue ?l (Name c) = of_nat (Suc j)"
    using Cons.prems(1) by (simp add: runCheck_counterValue)
  have bound: "Suc j + length ts < 2 ^ 31"
    using Cons.prems(2) by simp
  have small: "Suc j < 2 ^ 31"
    using Cons.prems(2) by simp
  have nx: "fst (nextRunCounter (Name c) l) = of_nat (Suc j)"
    using Cons.prems(1) by (simp add: nextRunCounter_counterValue)
  have cad: "cadence (of_nat (Suc j)) = map of_nat (filter (\<lambda>n. n \<le> 5 \<or> 20 dvd n) [Suc j])"
    using small by (intro cadence_of_nat) simp_all
  have "durationRuns ?l = durationRuns l @ cadence (of_nat (Suc j))"
    using std ok by (simp only: runCheck_durationRuns nx) simp
  then have first: "durationRuns ?l =
      durationRuns l @ map of_nat (filter (\<lambda>n. n \<le> 5 \<or> 20 dvd n) [Suc j])"
    by (simp only: cad)
  have "[Suc j ..< Suc (j + length (t # ts))] =
      Suc j # [Suc (Suc j) ..< Suc (j + length (t # ts))]"
    by (rule upt_conv_Cons) simp
  moreover have "Suc (j + length (t # ts)) = Suc (Suc j + length ts)"
    by simp
  ultimately have split: "[Suc j ..< Suc (j + length (t # ts))] =
      [Suc j] @ [Suc (Suc j) ..< Suc (Suc j + length ts)]"
    by (simp only: append_Cons append_Nil)
  show ?case
    using Cons.IH [OF cv bound] first
    by (simp only: fold_simps split filter_append map_append append_assoc)
qed

text \<open>
  C9 (as amended). \<open>runCheck\<close> advances the run counter of the check on every
  invocation, failed or not. For a standard check (\<open>RealTime()\<close> false) and the counter
  \<open>n \<ge> 1\<close> that a run draws, the run writes a check-duration event iff it succeeds and
  \<open>n \<le> 5\<close> or \<open>n\<close> is a multiple of 20. Run any number of times from a fresh counter with
  every run succeeding, the events are those of the runs \<open>n \<le> 5\<close> and of the multiples of
  20; for 25 runs they are the runs 1, 2, 3, 4, 5 and 20.
\<close>

theorem runCheck_duration_cadence:
  assumes "\<not> RealTime c"
  shows "(0 <s fst (nextRunCounter (Name c) l) \<longrightarrow>
            runCounters (runCheck E c results start l) (Name c) =
              Some (fst (nextRunCounter (Name c) l)) \<and>
            durationRuns (runCheck E c results start l) =
              durationRuns l @
              (if \<not> isl (Run c (groupID l + 1)) \<and>
                  (sint (fst (nextRunCounter (Name c) l)) \<le> 5 \<or>
                   20 dvd sint (fst (nextRunCounter (Name c) l)))
               then [fst (nextRunCounter (Name c) l)] else [])) \<and>
         ((\<forall>g. \<not> isl (Run c g)) \<and> runCounters l (Name c) = None \<and> length ts < 2 ^ 31 \<longrightarrow>
            durationRuns (fold (runCheck E c results) ts l) =
              durationRuns l @
              map of_nat (filter (\<lambda>n. n \<le> 5 \<or> 20 dvd n) [1 ..< Suc (length ts)])) \<and>
         ((\<forall>g. \<not> isl (Run c g)) \<and> runCounters l (Name c) = None \<and> length ts = 25 \<longrightarrow>
            durationRuns (fold (runCheck E c results) ts l) =
              durationRuns l @ [1, 2, 3, 4, 5, 20])"
proof (intro conjI impI)
  assume h: "(\<forall>g. \<not> isl (Run c g)) \<and> runCounters l (Name c) = None \<and> length ts < 2 ^ 31"
  then have cv: "counterValue l (Name c) = of_nat 0"
    by (simp add: counterValue_def)
  have b: "0 + length ts < (2::nat) ^ 31"
    using h by simp
  show "durationRuns (fold (runCheck E c results) ts l) =
      durationRuns l @
      map of_nat (filter (\<lambda>n. n \<le> 5 \<or> 20 dvd n) [1 ..< Suc (length ts)])"
    using runCheck_repeated [OF assms _ cv b, of E results] h by simp
next
  assume "0 <s fst (nextRunCounter (Name c) l)"
  then show "durationRuns (runCheck E c results start l) =
              durationRuns l @
              (if \<not> isl (Run c (groupID l + 1)) \<and>
                  (sint (fst (nextRunCounter (Name c) l)) \<le> 5 \<or>
                   20 dvd sint (fst (nextRunCounter (Name c) l)))
               then [fst (nextRunCounter (Name c) l)] else [])"
    using assms by (simp add: runCheck_durationRuns cadence_pos)
next
  show "runCounters (runCheck E c results start l) (Name c) =
          Some (fst (nextRunCounter (Name c) l))"
    by (simp add: runCheck_runCounters)
next
  assume h: "(\<forall>g. \<not> isl (Run c g)) \<and> runCounters l (Name c) = None \<and> length ts = 25"
  then have cv: "counterValue l (Name c) = of_nat 0"
    by (simp add: counterValue_def)
  have b: "0 + length ts < (2::nat) ^ 31"
    using h by simp
  have up: "[Suc 0 ..< Suc (0 + 25)] =
      [1, 2, 3, 4, 5, 6, 7, 8, 9, 10, 11, 12, 13, 14, 15, 16, 17, 18, 19, 20, 21, 22, 23, 24, 25]"
    by (simp add: upt_rec)
  have "durationRuns (fold (runCheck E c results) ts l) =
      durationRuns l @
      map of_nat (filter (\<lambda>n. n \<le> 5 \<or> 20 dvd n) [Suc 0 ..< Suc (0 + 25)])"
    using runCheck_repeated [OF assms _ cv b, of E results] h by simp
  then show "durationRuns (fold (runCheck E c results) ts l) =
      durationRuns l @ [1, 2, 3, 4, 5, 20]"
    by (simp only: up) simp
qed

theorem runCheck_duration_cadence_witness:
  "\<not> RealTime okCheck0 \<and> 0 <s fst (nextRunCounter (Name okCheck0) collector0) \<and>
   durationRuns (runCheck env0 okCheck0 processResults 0 collector0) = [1] \<and>
   durationRuns (runCheck env0 okCheck0 processResults 0
      (collector0\<lparr>runCounters := [''process'' \<mapsto> 5]\<rparr>)) = [] \<and>
   durationRuns (fold (runCheck env0 okCheck0 processResults) (replicate 25 0) collector0) =
     [1, 2, 3, 4, 5, 20]"
proof -
  have std: "\<not> RealTime okCheck0"
    by (simp add: okCheck0_def check0_def)
  have ok: "\<forall>g. \<not> isl (Run okCheck0 g)"
    by (simp add: okCheck0_def check0_def)
  have nm: "Name okCheck0 = ''process''"
    by (simp add: okCheck0_def check0_def)
  have n1: "fst (nextRunCounter ''process'' collector0) = 1"
    by (simp add: nextRunCounter_def collector0_def NewCollectorWithChecks_def)
  have n6: "fst (nextRunCounter ''process'' (collector0\<lparr>runCounters := [''process'' \<mapsto> 5]\<rparr>)) = 6"
    by (simp add: nextRunCounter_def)
  have d0: "durationRuns collector0 = []"
          "durationRuns (collector0\<lparr>runCounters := [''process'' \<mapsto> 5]\<rparr>) = []"
    by (simp_all add: durationRuns_def collector0_def NewCollectorWithChecks_def)
  have fresh: "runCounters collector0 ''process'' = None"
    by (simp add: collector0_def NewCollectorWithChecks_def)
  have up: "[Suc 0 ..< 26] =
      [1, 2, 3, 4, 5, 6, 7, 8, 9, 10, 11, 12, 13, 14, 15, 16, 17, 18, 19, 20, 21, 22, 23, 24, 25]"
    by (simp add: upt_rec)
  have ev: "map of_nat (filter (\<lambda>n. n \<le> 5 \<or> 20 dvd n) [Suc 0 ..< 26]) =
      [1, 2, 3, 4, 5, 20 :: int32]"
    by (simp only: up) simp
  show ?thesis
    using std ok nm n1 n6 d0 fresh ev
      runCheck_duration_cadence [OF std, of collector0 env0 processResults 0 "replicate 25 0"]
      runCheck_duration_cadence [OF std, of "collector0\<lparr>runCounters := [''process'' \<mapsto> 5]\<rparr>"
        env0 processResults 0 "[]"]
    by (simp add: word_sless_alt)
qed

text \<open>
  C9 as it is worded fails on a run that returns an error: the first run of a standard
  check draws the counter 1 and writes no check-duration event.
\<close>

theorem runCheck_failed_run_counterexample:
  "\<not> RealTime failingCheck0 \<and>
   fst (nextRunCounter (Name failingCheck0) collector0) = 1 \<and>
   runCounters (runCheck env0 failingCheck0 processResults 0 collector0) ''process'' = Some 1 \<and>
   durationRuns (runCheck env0 failingCheck0 processResults 0 collector0) = []"
  by (simp add: runCheck_def nextRunCounter_def nextGroupID_def logf_def Let_def
      failingCheck0_def check0_def collector0_def NewCollectorWithChecks_def durationRuns_def)

text \<open>
  The dual-mode path: \<open>runCheckWithRealTime\<close> draws a counter only after a successful
  run with \<open>RunStandard\<close> set, and then writes the event of that counter.
\<close>

lemma runCheckWithRealTime_durationRuns:
  "durationRuns (runCheckWithRealTime E c results rtResults options start l) =
     durationRuns l @
     (case snd (RunWithOptions c (groupID l) options) of
        Inl err \<Rightarrow> []
      | Inr run \<Rightarrow>
          if RunStandard options then cadence (fst (nextRunCounter (Name c) l)) else [])"
proof (cases "RunWithOptions c (groupID l) options")
  case (Pair k res)
  show ?thesis
  proof (cases res)
    case (Inl err)
    with Pair show ?thesis
      by (simp add: runCheckWithRealTime_def logf_def durationRuns_def)
  next
    case (Inr run)
    have mr: "concat (map eventRun (logs (messagesToResults E start nm ms q x))) =
        concat (map eventRun (logs x))" for nm ms q x
      using messagesToResults_durationRuns [of E start nm ms q x] by (simp add: durationRuns_def)
    have lc: "concat (map eventRun (logs (logCheckDuration nm n x))) =
        concat (map eventRun (logs x)) @ cadence n" for nm n x
      using logCheckDuration_durationRuns [of nm n x] by (simp add: durationRuns_def)
    from Pair Inr show ?thesis
      by (simp add: runCheckWithRealTime_def Let_def durationRuns_def StoreCheckOutput_def
          mr lc nextRunCounter_def split: prod.splits)
  qed
qed

lemma runCheck_invocations:
  "invocations (runCheck E c results start l) = invocations l @ [(Name c, groupID l + 1)]"
proof -
  obtain es where "\<And>n x. logCheckDuration (Name c) n x = x\<lparr>logs := logs x @ es n x\<rparr>"
    using logCheckDuration_frame by metis
  then show ?thesis
    by (auto simp: runCheck_def nextRunCounter_def nextGroupID_def Let_def logf_def
        StoreCheckOutput_def handlePodChecks_def messagesToResults_eq
        split: sum.splits prod.splits)
qed



lemma basicRunnerLoop_no_tick:
  "\<forall>e\<in>set es. \<not> isTick e \<Longrightarrow> snd (snd (basicRunnerLoop E c results es (tk, l))) = l"
proof (induction es arbitrary: tk)
  case Nil
  then show ?case by simp
next
  case (Cons e es)
  then show ?case
    by (cases e) (auto simp: isTick_def)
qed



section \<open>Properties of the scheduler\<close>

text \<open>
  C8. Up to the first time the ticker fires, \<open>basicRunner\<close> has invoked a check whose
  \<open>RealTime()\<close> is false exactly once (the priming run), and a check whose
  \<open>RealTime()\<close> is true not at all.
\<close>

theorem basicRunner_priming:
  assumes "\<forall>e\<in>set es. \<not> isTick e"
  shows "invocations (snd (snd (basicRunner E c results start es l))) =
           invocations l @ (if RealTime c then [] else [(Name c, groupID l + 1)])"
  using assms
  by (simp add: basicRunner_def basicRunnerLoop_no_tick runCheck_invocations Let_def)

theorem basicRunner_priming_witness:
  "\<not> isTick (RtInterval 5) \<and> \<not> isTick (Exit True) \<and>
   invocations (snd (snd (basicRunner env0 podCheck0 podResults 0 [RtInterval 5, Exit True] collector0))) =
     [(''pod'', 8)] \<and>
   invocations (snd (snd (basicRunner env0 (podCheck0\<lparr>RealTime := True\<rparr>) podResults 0
      [RtInterval 5, Exit True] collector0))) = []"
proof -
  have h: "\<forall>e\<in>set [RtInterval 5, Exit True]. \<not> isTick e"
    by (simp add: isTick_def)
  show ?thesis
    using h basicRunner_priming [OF h, of env0 podCheck0 podResults 0 collector0]
      basicRunner_priming [OF h, of env0 "podCheck0\<lparr>RealTime := True\<rparr>" podResults 0 collector0]
    by (simp add: collector0_def NewCollectorWithChecks_def podCheck0_def check0_def)
qed

section \<open>Properties of the results of a run\<close>

text \<open>
  C10. A successful run of the pod check with messages \<open>m\<close> queues the encodings of
  the first \<open>length m div 2\<close> messages as one result; when manifest collection is
  enabled, the remaining messages follow as a second result on the same queue, and when it
  is disabled nothing else is queued. (A half without messages adds no result.)
\<close>

theorem runCheck_pod_halves:
  assumes "Name c = PodCheckName E" and "Run c (groupID l + 1) = Inr m"
  shows "queueView (queues (runCheck E c results start l) q) =
           queueView (queues l q) @
           (if q = results then
              halfResults E (Name c) (take (length m div 2) m) @
              (if IsManifestCollectionEnabled (cfg l)
               then halfResults E (Name c) (drop (length m div 2) m) else [])
            else [])"
  using assms
  by (simp add: runCheck_def nextRunCounter_def nextGroupID_def Let_def StoreCheckOutput_def
      handlePodChecks_def messagesToResults_view)

theorem runCheck_pod_halves_witness:
  "Name podCheck0 = PodCheckName env0 \<and>
   Run podCheck0 (groupID collector0 + 1) = Inr [msg ''a'', msg ''b'', msg ''c''] \<and>
   queueView (queues (runCheck env0 podCheck0 podResults 0 collector0) podResults) =
     [(''pod'', [''a''])] \<and>
   queueView (queues (runCheck env0 podCheck0 podResults 0
      (collector0\<lparr>cfg := cfg0\<lparr>IsManifestCollectionEnabled := True\<rparr>\<rparr>)) podResults) =
     [(''pod'', [''a'']), (''pod'', [''b'', ''c''])]"
proof -
  have n: "Name podCheck0 = PodCheckName env0"
    by (simp add: podCheck0_def check0_def env0_def)
  have r: "Run podCheck0 (groupID collector0 + 1) = Inr [msg ''a'', msg ''b'', msg ''c'']"
    by (simp add: podCheck0_def check0_def)
  have r': "Run podCheck0 (groupID (collector0\<lparr>cfg := cfg0\<lparr>IsManifestCollectionEnabled := True\<rparr>\<rparr>) + 1) =
      Inr [msg ''a'', msg ''b'', msg ''c'']"
    by (simp add: podCheck0_def check0_def)
  have e: "encodedBodies env0 [msg ''a''] = [''a'']"
          "encodedBodies env0 [msg ''b'', msg ''c''] = [''b'', ''c'']"
    by (simp_all add: encodedBodies_def env0_def msg_def)
  have nm: "Name podCheck0 = ''pod''" by (simp add: podCheck0_def check0_def)
  show ?thesis
    using n r e nm runCheck_pod_halves [OF n r, of podResults 0 podResults]
      runCheck_pod_halves [OF n r', of podResults 0 podResults]
    by (simp add: collector0_def NewCollectorWithChecks_def cfg0_def halfResults_def queueView_def)
qed

text \<open>
  C6 (as amended). On a successful \<open>runCheckWithRealTime\<close>, the standard half is
  queued on \<open>results\<close> under the name of the check and the real-time half on
  \<open>rtResults\<close> under the real-time name; the run counter is advanced only when
  \<open>RunStandard\<close> is set, and only for the name of the check; the last output of the
  standard half is stored when \<open>RunStandard\<close> is set, and the last output of the
  real-time half is stored, under the real-time name, when \<open>RunRealTime\<close> is set.
\<close>

theorem runCheckWithRealTime_halves:
  assumes "RunWithOptions c (groupID l) options = (k, Inr run)"
  shows "queueView (queues (runCheckWithRealTime E c results rtResults options start l) q) =
           queueView (queues l q) @
           (if q = results then halfResults E (Name c) (Standard run) else []) @
           (if q = rtResults then halfResults E (RealTimeName c) (RealTimeHalf run) else []) \<and>
         runCounters (runCheckWithRealTime E c results rtResults options start l) =
           (if RunStandard options
            then (runCounters l)(Name c \<mapsto>
                   (case runCounters l (Name c) of Some rc \<Rightarrow> rc + 1 | None \<Rightarrow> 1))
            else runCounters l) \<and>
         checkOutputs (runCheckWithRealTime E c results rtResults options start l) =
           (let o1 = (if RunStandard options
                      then (checkOutputs l)(Name c \<mapsto> Standard run) else checkOutputs l)
            in if RunRealTime options then o1(RealTimeName c \<mapsto> RealTimeHalf run) else o1)"
  using assms
  by (simp add: runCheckWithRealTime_def nextRunCounter_def Let_def StoreCheckOutput_def
      messagesToResults_view)

theorem runCheckWithRealTime_halves_witness:
  "RunWithOptions rtCheck0 (groupID collector0) bothOptions =
     (1, Inr \<lparr>Standard = [msg ''a''], RealTimeHalf = [msg ''b'']\<rparr>) \<and>
   queueView (queues (runCheckWithRealTime env0 rtCheck0 processResults rtProcessResults
      bothOptions 0 collector0) processResults) = [(''process'', [''a''])] \<and>
   queueView (queues (runCheckWithRealTime env0 rtCheck0 processResults rtProcessResults
      bothOptions 0 collector0) rtProcessResults) = [(''rtprocess'', [''b''])] \<and>
   runCounters (runCheckWithRealTime env0 rtCheck0 processResults rtProcessResults
      bothOptions 0 collector0) ''rtprocess'' = None \<and>
   runCounters (runCheckWithRealTime env0 rtCheck0 processResults rtProcessResults
      bothOptions 0 collector0) ''process'' = Some 1"
proof -
  have h: "RunWithOptions rtCheck0 (groupID collector0) bothOptions =
     (1, Inr \<lparr>Standard = [msg ''a''], RealTimeHalf = [msg ''b'']\<rparr>)"
    by (simp add: rtCheck0_def)
  have e: "encodedBodies env0 [msg ''a''] = [''a'']" "encodedBodies env0 [msg ''b''] = [''b'']"
    by (simp_all add: encodedBodies_def env0_def msg_def)
  have nm: "Name rtCheck0 = ''process''" "RealTimeName rtCheck0 = ''rtprocess''"
    by (simp_all add: rtCheck0_def)
  show ?thesis
    using h e nm
      runCheckWithRealTime_halves [OF h, of env0 processResults rtProcessResults 0 processResults]
      runCheckWithRealTime_halves [OF h, of env0 processResults rtProcessResults 0 rtProcessResults]
    by (simp add: collector0_def NewCollectorWithChecks_def halfResults_def queueView_def
        bothOptions_def)
qed

text \<open>
  C6 as it is worded fails: with \<open>RunRealTime\<close> set, the last output of the real-time
  half is stored.
\<close>

theorem runCheckWithRealTime_stores_rt_counterexample:
  "checkOutputs collector0 ''rtprocess'' = None \<and>
   checkOutputs (runCheckWithRealTime env0 rtCheck0 processResults rtProcessResults
      rtOnlyOptions 0 collector0) ''rtprocess'' = Some [msg ''b'']"
  by (simp add: runCheckWithRealTime_def concrete_defs messagesToResults_def Let_def
      StoreCheckOutput_def)

section \<open>Properties of the dispatcher\<close>

lemma dropLoop_iff: "dropLoop ds check \<longleftrightarrow> check \<in> set ds"
  by (induction ds) auto

lemma consumeResult_dropped:
  "shouldDropPayload l (name result) \<Longrightarrow> consumeResult E fwd result ps l = l"
  by (induction ps) (simp_all add: consumePayload_def)

lemma consumePayloads_dropped:
  "\<forall>r\<in>set items. name r \<in> set (dropCheckPayloads l) \<Longrightarrow> consumePayloads E fwd items l = l"
  by (induction items) (simp_all add: consumeResult_dropped shouldDropPayload_def dropLoop_iff)

text \<open>
  C5. When the names of the results that a dispatcher consumes are in the drop list,
  nothing is submitted to the forwarder, although \<open>messagesToResults\<close> still adds a
  result of that name to its queue.
\<close>

theorem dropped_never_submitted:
  assumes "\<forall>r\<in>set items. name r \<in> set (dropCheckPayloads l)"
  shows "submitted (consumePayloads E fwd items l) = submitted l \<and>
         (\<forall>r\<in>set items. \<forall>ms. ms \<noteq> [] \<longrightarrow>
            queueView (queues (messagesToResults E start (name r) ms q l) q) =
              queueView (queues l q) @ [(name r, encodedBodies E ms)])"
  using assms
  by (simp add: consumePayloads_dropped messagesToResults_view halfResults_def)

theorem dropped_never_submitted_witness:
  "name podResult0 \<in> set (dropCheckPayloads (collector0\<lparr>dropCheckPayloads := [''pod'']\<rparr>)) \<and>
   submitted (consumePayloads env0 fwd0 [podResult0] (collector0\<lparr>dropCheckPayloads := [''pod'']\<rparr>)) = [] \<and>
   queueView (queues (messagesToResults env0 0 ''pod'' [msg ''a''] podResults
      (collector0\<lparr>dropCheckPayloads := [''pod'']\<rparr>)) podResults) = [(''pod'', [''a''])]"
proof -
  have h: "\<forall>r\<in>set [podResult0].
             name r \<in> set (dropCheckPayloads (collector0\<lparr>dropCheckPayloads := [''pod'']\<rparr>))"
    by (simp add: podResult0_def)
  have n: "name podResult0 = ''pod''" by (simp add: podResult0_def)
  have e: "encodedBodies env0 [msg ''a''] = [''a'']"
    by (simp add: encodedBodies_def env0_def msg_def)
  show ?thesis
    using h n e dropped_never_submitted [OF h, of env0 fwd0 0 podResults]
    by (simp add: collector0_def NewCollectorWithChecks_def queueView_def)
qed

lemma consumePayload_no_update:
  assumes "distinct (checkNames E)"
      and "name result \<in> {PodName E, ProcessDiscoveryName E, ProcessEventsName E}"
  shows "\<exists>ls sub. consumePayload E fwd result payload l = l\<lparr>logs := ls, submitted := sub\<rparr>"
proof -
  have snd_sel: "snd (selectSink E (name result) payload u) = False" for u
    using assms by (auto simp: selectSink_def checkNames_def)
  have ex1: "\<exists>ls sub. l = l\<lparr>logs := ls, submitted := sub\<rparr>"
    by (rule exI [of _ "logs l"], rule exI [of _ "submitted l"]) simp
  show ?thesis
  proof (cases "shouldDropPayload l (name result)")
    case True
    then show ?thesis using ex1 by (simp add: consumePayload_def)
  next
    case False
    obtain route update where sel: "selectSink E (name result) payload (runRealTime l) = (route, update)"
      by (cases "selectSink E (name result) payload (runRealTime l)")
    with snd_sel [of "runRealTime l"] have upd: "update = False" by simp
    show ?thesis
    proof (cases route)
      case (Inl err)
      have "consumePayload E fwd result payload l = l\<lparr>logs := logs l @ [ErrUnableToSubmit err], submitted := submitted l\<rparr>"
        using False sel Inl by (simp add: consumePayload_def logf_def)
      then show ?thesis by blast
    next
      case (Inr sink)
      show ?thesis
      proof (cases "fwd (length (submitted l)) sink payload")
        case (Inl err)
        have "consumePayload E fwd result payload l =
                l\<lparr>logs := logs l @ [ErrUnableToSubmit err], submitted := submitted l @ [(sink, payload)]\<rparr>"
          using False sel Inr Inl by (simp add: consumePayload_def logf_def)
        then show ?thesis by blast
      next
        case (Inr responses)
        obtain statuses errs where rr: "readResponseStatuses E (name result) responses ([], []) = (statuses, errs)"
          by (cases "readResponseStatuses E (name result) responses ([], [])")
        have "consumePayload E fwd result payload l =
                l\<lparr>logs := logs l @ errs, submitted := submitted l @ [(sink, payload)]\<rparr>"
          using False sel \<open>route = Inr sink\<close> Inr rr upd by (simp add: consumePayload_def Let_def)
        then show ?thesis by blast
      qed
    qed
  qed
qed

lemma consumePayload_rtState:
  assumes "distinct (checkNames E)"
      and "name result \<in> {PodName E, ProcessDiscoveryName E, ProcessEventsName E}"
  shows "rtState (consumePayload E fwd result payload l) = rtState l"
  using consumePayload_no_update [OF assms, of fwd payload l]
  by (auto simp: rtState_def)

lemma consumeResult_rtState:
  assumes "distinct (checkNames E)"
      and "name result \<in> {PodName E, ProcessDiscoveryName E, ProcessEventsName E}"
  shows "rtState (consumeResult E fwd result ps l) = rtState l"
  by (induction ps arbitrary: l) (simp_all add: consumePayload_rtState [OF assms])

text \<open>
  C4. When the check names are pairwise different, consuming results of the pod check,
  the process-discovery check or the process-events check leaves the real-time flag, the
  stored interval and the channel as they were, whatever the forwarder answers.
\<close>

theorem consumePayloads_rt_unchanged:
  assumes "distinct (checkNames E)"
      and "\<forall>r\<in>set items. name r \<in> {PodName E, ProcessDiscoveryName E, ProcessEventsName E}"
  shows "realTimeEnabled (consumePayloads E fwd items l) = realTimeEnabled l \<and>
         realTimeInterval (consumePayloads E fwd items l) = realTimeInterval l \<and>
         rtIntervalCh (consumePayloads E fwd items l) = rtIntervalCh l"
proof -
  have "rtState (consumePayloads E fwd items l) = rtState l"
    using assms(2)
  proof (induction items arbitrary: l)
    case Nil
    then show ?case by simp
  next
    case (Cons r items)
    then show ?case
      by (simp add: consumeResult_rtState [OF assms(1)])
  qed
  then show ?thesis by (simp add: rtState_def)
qed

theorem consumePayloads_rt_unchanged_witness:
  "distinct (checkNames env0) \<and> name podResult0 = PodName env0 \<and>
   \<not> realTimeEnabled (consumePayloads env0 fwd0 [podResult0] collector0) \<and>
   realTimeInterval (consumePayloads env0 fwd0 [podResult0] collector0) = 2 * Second \<and>
   rtIntervalCh (consumePayloads env0 fwd0 [podResult0] collector0) = []"
proof -
  have d: "distinct (checkNames env0)"
    by (simp add: checkNames_def env0_def)
  have n: "\<forall>r\<in>set [podResult0].
             name r \<in> {PodName env0, ProcessDiscoveryName env0, ProcessEventsName env0}"
    by (simp add: podResult0_def env0_def)
  show ?thesis
    using d n consumePayloads_rt_unchanged [OF d n, of fwd0 collector0]
    by (simp add: collector0_def NewCollectorWithChecks_def podResult0_def env0_def)
qed

text \<open>
  A result of the process check, with the same answer of the forwarder, does switch
  real-time mode on.
\<close>

lemma consumePayloads_process_updates:
  "realTimeEnabled (consumePayloads env0 fwd0 [processResult0] collector0) \<and>
   realTimeInterval (consumePayloads env0 fwd0 [processResult0] collector0) = 10 * Second"
  by (simp add: concrete_defs consumePayload_def shouldDropPayload_def selectSink_def
      ignoreResponseBody_def updateRTStatus_def logf_def intervalDuration_def Second_def Let_def
      word_sless_alt)

end
